theory Spec2Isabelle
  imports Main "HOL-Library.Sublist"
begin

section \<open>The knowledge graph store of \<^verbatim>\<open>databases/firestore_kg.py\<close>\<close>

text \<open>
  \<^verbatim>\<open>FirestoreKG\<close> keeps a graph in two document collections: node documents that
  carry their own adjacency lists (\<^verbatim>\<open>edges_to\<close>, \<^verbatim>\<open>edges_from\<close>), and edge documents
  keyed by an identifier derived from the two endpoints. Every method is a sequence of
  single-document reads and writes.

  The embedding follows the methods line by line. A collection is a map from document
  ids to documents; a method takes the store and returns the exception it raised, if
  any, together with the store as it stands at that moment (a Python exception does not
  undo the writes made before it). The community collection, which none of the methods
  below reads or writes, is left out.
\<close>

subsection \<open>Documents and the store\<close>

text \<open>
  \<^verbatim>\<open>NodeData\<close> and \<^verbatim>\<open>EdgeData\<close> are imported from \<^verbatim>\<open>datamodel.data_model\<close>.
  The methods read and write the two adjacency lists of a node and pass every other
  field through untouched, so those fields are one component of an arbitrary type.
  Of an edge the methods use \<^verbatim>\<open>source_uid\<close>, \<^verbatim>\<open>target_uid\<close>,
  \<^verbatim>\<open>description\<close> and \<^verbatim>\<open>directed\<close>; the stored document also has \<^verbatim>\<open>edge_uid\<close>.
  Documents are kept in parsed form: the \<^verbatim>\<open>TypeError\<close> branches of \<^verbatim>\<open>get_node\<close> and
  \<^verbatim>\<open>get_edge\<close> (a stored document that does not fit the dataclass) have no counterpart.
\<close>

datatype error = KeyError | ValueError | TypeError | Exception

record 'a node_data =
  attributes :: 'a
  edges_to :: "string list"
  edges_from :: "string list"

record edge_data =
  source_uid :: string
  target_uid :: string
  description :: string
  directed :: bool

record edge_doc = edge_data +
  edge_uid :: string

record 'a store =
  nodes :: "string \<rightharpoonup> 'a node_data"
  edges :: "string \<rightharpoonup> edge_doc"

text \<open>
  \<^verbatim>\<open>collection.stream()\<close> yields every document once, in an order the store chooses.
  The order is an argument: a list of document ids, \<open>stream_order\<close> when it lists
  each id of the collection exactly once.
\<close>

definition stream_order :: "('k \<rightharpoonup> 'v) \<Rightarrow> 'k list \<Rightarrow> bool" where
  "stream_order coll ids = (distinct ids \<and> set ids = dom coll)"

definition stream :: "('k \<rightharpoonup> 'v) \<Rightarrow> 'k list \<Rightarrow> ('k \<times> 'v) list" where
  "stream coll ids = List.map_filter (\<lambda>k. map_option (Pair k) (coll k)) ids"

text \<open>
  \<^verbatim>\<open>list(set(xs) | {u})\<close>: Python lists the elements of the union once each, in an
  order it does not specify. The methods take the listing as an argument \<open>to_list\<close>,
  applied to the elements of the union; \<open>set_listing\<close> says what Python guarantees of
  it. \<open>remdups\<close> is one such listing.
\<close>

definition set_listing :: "(string list \<Rightarrow> string list) \<Rightarrow> bool" where
  "set_listing to_list = (\<forall>xs. set (to_list xs) = set xs \<and> distinct (to_list xs))"

definition set_union_list :: "(string list \<Rightarrow> string list) \<Rightarrow> string list \<Rightarrow> string \<Rightarrow> string list" where
  "set_union_list to_list xs u = to_list (xs @ [u])"

text \<open>\<^verbatim>\<open>xs.remove(u)\<close> drops the first occurrence and raises \<^verbatim>\<open>ValueError\<close> when there is none.\<close>

definition list_remove :: "string list \<Rightarrow> string \<Rightarrow> error + string list" where
  "list_remove xs u = (if u \<in> set xs then Inr (remove1 u xs) else Inl ValueError)"

subsection \<open>Edge identifiers\<close>

definition generate_edge_uid :: "string \<Rightarrow> string \<Rightarrow> string" where
  "generate_edge_uid src tgt = src @ ''_to_'' @ tgt"

text \<open>A uid contains the delimiter: Python's \<^verbatim>\<open>"_to_" in uid\<close>.\<close>

definition has_delimiter :: "string \<Rightarrow> bool" where
  "has_delimiter uid = sublist ''_to_'' uid"

subsection \<open>Node repository\<close>

definition get_node :: "'a store \<Rightarrow> string \<Rightarrow> error + 'a node_data" where
  "get_node db node_uid =
     (case nodes db node_uid of
        Some node \<Rightarrow> Inr node
      | None \<Rightarrow> Inl KeyError)"

text \<open>
  \<^verbatim>\<open>doc_ref.update(node_data.__dict__)\<close> writes every field of the dataclass, so the
  stored document becomes \<open>node\<close>.
\<close>

definition update_node :: "'a store \<Rightarrow> string \<Rightarrow> 'a node_data \<Rightarrow> error + 'a store" where
  "update_node db node_uid node =
     (if nodes db node_uid = None then Inl KeyError
      else Inr (db\<lparr>nodes := (nodes db)(node_uid \<mapsto> node)\<rparr>))"

definition node_exist :: "'a store \<Rightarrow> string \<Rightarrow> bool" where
  "node_exist db node_uid = (nodes db node_uid \<noteq> None)"




text \<open>
  \<^verbatim>\<open>remove_node\<close>, step 2: for every uid in the node's \<^verbatim>\<open>edges_from\<close>, read that
  neighbour afresh, drop every occurrence of \<open>node_uid\<close> from its \<^verbatim>\<open>edges_to\<close> and
  write it back; a missing neighbour is skipped. Step 3 is the same over the node's
  \<^verbatim>\<open>edges_to\<close> and the neighbours' \<^verbatim>\<open>edges_from\<close>.
\<close>

fun remove_node_edges_from :: "string \<Rightarrow> string list \<Rightarrow> 'a store \<Rightarrow> error option \<times> 'a store" where
  "remove_node_edges_from node_uid [] db = (None, db)"
| "remove_node_edges_from node_uid (other_node_uid # rest) db =
     (case get_node db other_node_uid of
        Inl e \<Rightarrow> if e = KeyError then remove_node_edges_from node_uid rest db else (Some e, db)
      | Inr other \<Rightarrow>
          (case update_node db other_node_uid
                  (other\<lparr>edges_to := filter (\<lambda>edge. edge \<noteq> node_uid) (edges_to other)\<rparr>) of
             Inl e \<Rightarrow> if e = KeyError then remove_node_edges_from node_uid rest db else (Some e, db)
           | Inr db' \<Rightarrow> remove_node_edges_from node_uid rest db'))"

fun remove_node_edges_to :: "string \<Rightarrow> string list \<Rightarrow> 'a store \<Rightarrow> error option \<times> 'a store" where
  "remove_node_edges_to node_uid [] db = (None, db)"
| "remove_node_edges_to node_uid (other_node_uid # rest) db =
     (case get_node db other_node_uid of
        Inl e \<Rightarrow> if e = KeyError then remove_node_edges_to node_uid rest db else (Some e, db)
      | Inr other \<Rightarrow>
          (case update_node db other_node_uid
                  (other\<lparr>edges_from := filter (\<lambda>edge. edge \<noteq> node_uid) (edges_from other)\<rparr>) of
             Inl e \<Rightarrow> if e = KeyError then remove_node_edges_to node_uid rest db else (Some e, db)
           | Inr db' \<Rightarrow> remove_node_edges_to node_uid rest db'))"

definition remove_node :: "'a store \<Rightarrow> string \<Rightarrow> error option \<times> 'a store" where
  "remove_node db node_uid =
     (if nodes db node_uid = None then (Some KeyError, db)
      else
        (case get_node db node_uid of
           Inl e \<Rightarrow> (Some e, db)
         | Inr node \<Rightarrow>
             (case remove_node_edges_from node_uid (edges_from node) db of
                (Some e, db1) \<Rightarrow> (Some e, db1)
              | (None, db1) \<Rightarrow>
                  (case remove_node_edges_to node_uid (edges_to node) db1 of
                     (Some e, db2) \<Rightarrow> (Some e, db2)
                   | (None, db2) \<Rightarrow> (None, db2\<lparr>nodes := (nodes db2)(node_uid := None)\<rparr>)))))"

subsection \<open>Edge collection\<close>

definition update_egde_coll ::
  "'a store \<Rightarrow> string \<Rightarrow> string \<Rightarrow> string \<Rightarrow> string \<Rightarrow> bool \<Rightarrow> 'a store" where
  "update_egde_coll db e_uid src tgt descr dir =
     db\<lparr>edges := (edges db)(e_uid \<mapsto>
        \<lparr>source_uid = src, target_uid = tgt, description = descr, directed = dir, edge_uid = e_uid\<rparr>)\<rparr>"

definition delete_from_edge_coll :: "'a store \<Rightarrow> string \<Rightarrow> 'a store" where
  "delete_from_edge_coll db e_uid = db\<lparr>edges := (edges db)(e_uid := None)\<rparr>"

definition get_edge :: "'a store \<Rightarrow> string \<Rightarrow> string \<Rightarrow> error + edge_doc" where
  "get_edge db src tgt =
     (case edges db (generate_edge_uid src tgt) of
        Some doc \<Rightarrow> Inr doc
      | None \<Rightarrow> Inl KeyError)"


subsection \<open>Edges: add, update, remove\<close>

text \<open>
  \<^verbatim>\<open>add_edge\<close>. The two \<^verbatim>\<open>if not self.get_node(...)\<close> guards raise \<^verbatim>\<open>KeyError\<close> from
  \<^verbatim>\<open>get_node\<close> itself when an endpoint is missing (a \<^verbatim>\<open>NodeData\<close> object is never
  falsy). The \<^verbatim>\<open>isinstance\<close> check cannot fail for a value of type \<open>edge_data\<close>. Both
  endpoint documents are then read before anything is written, and the two local copies
  \<open>source_node\<close> and \<open>target_node\<close> are what the later writes send.
\<close>

definition add_edge ::
  "(string list \<Rightarrow> string list) \<Rightarrow> 'a store \<Rightarrow> edge_data \<Rightarrow> error option \<times> 'a store" where
  "add_edge to_list db e =
     (case get_node db (source_uid e) of
        Inl err \<Rightarrow> (Some err, db)
      | Inr _ \<Rightarrow>
     (case get_node db (target_uid e) of
        Inl err \<Rightarrow> (Some err, db)
      | Inr _ \<Rightarrow>
     (let e_uid = generate_edge_uid (source_uid e) (target_uid e) in
     (case get_node db (source_uid e) of
        Inl err \<Rightarrow> (Some err, db)
      | Inr source_node0 \<Rightarrow>
     (case get_node db (target_uid e) of
        Inl err \<Rightarrow> (Some err, db)
      | Inr target_node0 \<Rightarrow>
     (let source_node1 = source_node0\<lparr>edges_to :=
            set_union_list to_list (edges_to source_node0) (target_uid e)\<rparr> in
     (case update_node db (source_uid e) source_node1 of
        Inl err \<Rightarrow> (Some err, db)
      | Inr db1 \<Rightarrow>
     (let target_node1 = target_node0\<lparr>edges_from :=
            set_union_list to_list (edges_from target_node0) (source_uid e)\<rparr> in
     (case update_node db1 (target_uid e) target_node1 of
        Inl err \<Rightarrow> (Some err, db1)
      | Inr db2 \<Rightarrow>
     (let db3 = update_egde_coll db2 e_uid (source_uid e) (target_uid e) (description e) (directed e) in
      if \<not> directed e then
        (let target_node2 = target_node1\<lparr>edges_to :=
               set_union_list to_list (edges_to target_node1) (source_uid e)\<rparr> in
         case update_node db3 (target_uid e) target_node2 of
           Inl err \<Rightarrow> (Some err, db3)
         | Inr db4 \<Rightarrow>
        (let source_node2 = source_node1\<lparr>edges_from :=
               set_union_list to_list (edges_from source_node1) (target_uid e)\<rparr> in
         case update_node db4 (source_uid e) source_node2 of
           Inl err \<Rightarrow> (Some err, db4)
         | Inr db5 \<Rightarrow>
        (let reverse_edge_uid = generate_edge_uid (target_uid e) (source_uid e) in
         (None, update_egde_coll db5 reverse_edge_uid (target_uid e) (source_uid e)
                   (description e) (directed e)))))
      else (None, db3)))))))))))"

text \<open>
  \<^verbatim>\<open>update_edge\<close>: unlike \<^verbatim>\<open>add_edge\<close>, it reads the target node only after the source
  node has been written. Every exception of steps 2 and 3 is re-raised as \<^verbatim>\<open>Exception\<close>.
\<close>

definition update_edge ::
  "(string list \<Rightarrow> string list) \<Rightarrow> 'a store \<Rightarrow> edge_data \<Rightarrow> error option \<times> 'a store" where
  "update_edge to_list db e =
     (let e_uid = generate_edge_uid (source_uid e) (target_uid e) in
      if edges db e_uid = None then (Some KeyError, db)
      else
     (let db1 = update_egde_coll db e_uid (source_uid e) (target_uid e) (description e) (directed e) in
     (case get_node db1 (source_uid e) of
        Inl err \<Rightarrow> (Some Exception, db1)
      | Inr source_node \<Rightarrow>
     (case (if target_uid e \<notin> set (edges_to source_node)
            then update_node db1 (source_uid e)
                   (source_node\<lparr>edges_to := set_union_list to_list (edges_to source_node) (target_uid e)\<rparr>)
            else Inr db1) of
        Inl err \<Rightarrow> (Some Exception, db1)
      | Inr db2 \<Rightarrow>
     (case get_node db2 (target_uid e) of
        Inl err \<Rightarrow> (Some Exception, db2)
      | Inr target_node \<Rightarrow>
     (case (if source_uid e \<notin> set (edges_from target_node)
            then update_node db2 (target_uid e)
                   (target_node\<lparr>edges_from := set_union_list to_list (edges_from target_node) (source_uid e)\<rparr>)
            else Inr db2) of
        Inl err \<Rightarrow> (Some Exception, db2)
      | Inr db3 \<Rightarrow> (None, db3)))))))"

text \<open>
  \<^verbatim>\<open>remove_edge\<close>: the edge document and both endpoints are read first (a failure is
  re-raised as \<^verbatim>\<open>Exception\<close>); \<^verbatim>\<open>list.remove\<close> raises \<^verbatim>\<open>ValueError\<close> on a missing entry.
\<close>

definition remove_edge :: "'a store \<Rightarrow> string \<Rightarrow> string \<Rightarrow> error option \<times> 'a store" where
  "remove_edge db src tgt =
     (case get_edge db src tgt of
        Inl err \<Rightarrow> (Some Exception, db)
      | Inr e \<Rightarrow>
     (case get_node db src of
        Inl err \<Rightarrow> (Some Exception, db)
      | Inr source_node0 \<Rightarrow>
     (case get_node db tgt of
        Inl err \<Rightarrow> (Some Exception, db)
      | Inr target_node0 \<Rightarrow>
     (case list_remove (edges_to source_node0) tgt of
        Inl err \<Rightarrow> (Some ValueError, db)
      | Inr source_to \<Rightarrow>
     (let source_node1 = source_node0\<lparr>edges_to := source_to\<rparr> in
     (case update_node db src source_node1 of
        Inl err \<Rightarrow> (Some err, db)
      | Inr db1 \<Rightarrow>
     (case list_remove (edges_from target_node0) src of
        Inl err \<Rightarrow> (Some ValueError, db1)
      | Inr target_from \<Rightarrow>
     (let target_node1 = target_node0\<lparr>edges_from := target_from\<rparr> in
     (case update_node db1 tgt target_node1 of
        Inl err \<Rightarrow> (Some err, db1)
      | Inr db2 \<Rightarrow>
     (let db3 = delete_from_edge_coll db2 (generate_edge_uid src tgt) in
      if \<not> directed e then
        (case list_remove (edges_from source_node1) tgt of
           Inl err \<Rightarrow> (Some ValueError, db3)
         | Inr source_from \<Rightarrow>
        (let source_node2 = source_node1\<lparr>edges_from := source_from\<rparr> in
        (case update_node db3 src source_node2 of
           Inl err \<Rightarrow> (Some err, db3)
         | Inr db4 \<Rightarrow>
        (case list_remove (edges_to target_node1) src of
           Inl err \<Rightarrow> (Some ValueError, db4)
         | Inr target_to \<Rightarrow>
        (let target_node2 = target_node1\<lparr>edges_to := target_to\<rparr> in
        (case update_node db4 tgt target_node2 of
           Inl err \<Rightarrow> (Some err, db4)
         | Inr db5 \<Rightarrow>
           (None, delete_from_edge_coll db5 (generate_edge_uid tgt src))))))))
      else (None, db3)))))))))))"

subsection \<open>Pruning\<close>

fun remove_nodes :: "'a store \<Rightarrow> string list \<Rightarrow> error option \<times> 'a store" where
  "remove_nodes db [] = (None, db)"
| "remove_nodes db (node_uid # rest) =
     (case remove_node db node_uid of
        (Some e, db') \<Rightarrow> (Some e, db')
      | (None, db') \<Rightarrow> remove_nodes db' rest)"

definition clean_zerodegree_nodes :: "string list \<Rightarrow> 'a store \<Rightarrow> error option \<times> 'a store" where
  "clean_zerodegree_nodes ids db =
     (let nodes_to_remove =
            map fst (filter (\<lambda>(doc_id, node). length (edges_to node) + length (edges_from node) = 0)
                       (stream (nodes db) ids))
      in remove_nodes db nodes_to_remove)"

subsection \<open>Graph materializer\<close>

text \<open>
  \<^verbatim>\<open>build_networkx\<close> fills a \<^verbatim>\<open>networkx.Graph\<close>. networkx is an external library, not
  part of the repository; the three operations the method calls are modelled from its
  documented behaviour. A \<^verbatim>\<open>Graph\<close> keeps a dictionary \<^verbatim>\<open>_node\<close> from node to attribute
  dictionary and a dictionary \<^verbatim>\<open>_adj\<close> from node to the dictionary of its neighbours.
  Here \<open>g_node\<close> maps a node to its attributes (\<open>None\<close> for the empty attribute
  dictionary of a node that \<^verbatim>\<open>add_edge\<close> created), and \<open>g_adj\<close> maps a node to the
  keys of its neighbour dictionary, in insertion order: assigning to a key that is
  present adds no second key.
\<close>

record 'a graph =
  g_node :: "string \<rightharpoonup> 'a node_data option"
  g_adj :: "string \<rightharpoonup> string list"

definition nx_Graph :: "'a graph" where
  "nx_Graph = \<lparr>g_node = Map.empty, g_adj = Map.empty\<rparr>"

definition dict_add_key :: "string list \<Rightarrow> string \<Rightarrow> string list" where
  "dict_add_key ks k = (if k \<in> set ks then ks else ks @ [k])"

definition neighbors :: "'a graph \<Rightarrow> string \<Rightarrow> string list" where
  "neighbors g u = (case g_adj g u of Some ks \<Rightarrow> ks | None \<Rightarrow> [])"

text \<open>\<^verbatim>\<open>if n not in self._node: self._adj[n] = {}; self._node[n] = {}\<close>\<close>

definition nx_new_node :: "'a graph \<Rightarrow> string \<Rightarrow> 'a graph" where
  "nx_new_node g n =
     (if g_node g n = None
      then g\<lparr>g_adj := (g_adj g)(n \<mapsto> []), g_node := (g_node g)(n \<mapsto> None)\<rparr>
      else g)"

text \<open>
  \<^verbatim>\<open>add_node(n, **attr)\<close>: the call passes every field of the node document, so the
  attribute dictionary of \<open>n\<close> becomes the document.
\<close>

definition nx_add_node :: "'a graph \<Rightarrow> string \<Rightarrow> 'a node_data \<Rightarrow> 'a graph" where
  "nx_add_node g n attr =
     (let g1 = nx_new_node g n in g1\<lparr>g_node := (g_node g1)(n \<mapsto> Some attr)\<rparr>)"

text \<open>\<^verbatim>\<open>self._adj[u][v] = datadict\<close>: \<open>v\<close> becomes a key of the neighbour dictionary of \<open>u\<close>.\<close>

definition nx_set_adj :: "'a graph \<Rightarrow> string \<Rightarrow> string \<Rightarrow> 'a graph" where
  "nx_set_adj g u v = g\<lparr>g_adj := (g_adj g)(u \<mapsto> dict_add_key (neighbors g u) v)\<rparr>"

text \<open>
  \<^verbatim>\<open>add_edge(u, v)\<close>: both endpoints are created when missing, then
  \<^verbatim>\<open>self._adj[u][v] = datadict; self._adj[v][u] = datadict\<close>.
\<close>

definition nx_add_edge :: "'a graph \<Rightarrow> string \<Rightarrow> string \<Rightarrow> 'a graph" where
  "nx_add_edge g u v =
     (let g1 = nx_new_node g u;
          g2 = nx_new_node g1 v;
          g3 = nx_set_adj g2 u v
      in nx_set_adj g3 v u)"

text \<open>How many times \<open>v\<close> stands among the neighbours of \<open>u\<close>.\<close>

definition edge_multiplicity :: "'a graph \<Rightarrow> string \<Rightarrow> string \<Rightarrow> nat" where
  "edge_multiplicity g u v = count_list (neighbors g u) v"

definition build_networkx :: "'a store \<Rightarrow> string list \<Rightarrow> string list \<Rightarrow> 'a graph" where
  "build_networkx db node_ids edge_ids =
     (let graph0 = nx_Graph;
          graph1 = foldl (\<lambda>g (doc_id, node). nx_add_node g doc_id node) graph0
                     (stream (nodes db) node_ids);
          graph2 = foldl (\<lambda>g (doc_id, doc). nx_add_edge g (source_uid doc) (target_uid doc)) graph1
                     (stream (edges db) edge_ids)
      in graph2)"

subsection \<open>Vocabulary of the properties\<close>

text \<open>
  Two node documents with the same attributes and the same adjacency \<^emph>\<open>sets\<close>: the
  lists may differ in order and in repetitions.
\<close>

definition same_adjacency :: "'a node_data \<Rightarrow> 'a node_data \<Rightarrow> bool" where
  "same_adjacency n n' =
     (attributes n = attributes n' \<and> set (edges_to n) = set (edges_to n') \<and>
      set (edges_from n) = set (edges_from n'))"

definition zero_degree :: "'a node_data \<Rightarrow> bool" where
  "zero_degree n = (edges_to n = [] \<and> edges_from n = [])"

definition strip_to :: "string \<Rightarrow> 'a node_data \<Rightarrow> 'a node_data" where
  "strip_to uid n = n\<lparr>edges_to := filter (\<lambda>edge. edge \<noteq> uid) (edges_to n)\<rparr>"

definition strip_from :: "string \<Rightarrow> 'a node_data \<Rightarrow> 'a node_data" where
  "strip_from uid n = n\<lparr>edges_from := filter (\<lambda>edge. edge \<noteq> uid) (edges_from n)\<rparr>"

text \<open>An edge document joins \<open>u\<close> and \<open>v\<close>, in either direction.\<close>

definition joins :: "edge_doc \<Rightarrow> string \<Rightarrow> string \<Rightarrow> bool" where
  "joins doc u v =
     ((source_uid doc = u \<and> target_uid doc = v) \<or> (source_uid doc = v \<and> target_uid doc = u))"

text \<open>
  What every graph built by \<open>nx_add_node\<close> and \<open>nx_add_edge\<close> satisfies: a node
  without attributes entry has no neighbour dictionary, and a neighbour dictionary has
  each key once.
\<close>

definition graph_inv :: "'a graph \<Rightarrow> bool" where
  "graph_inv g =
     ((\<forall>n. g_node g n = None \<longrightarrow> g_adj g n = None) \<and> (\<forall>n. distinct (neighbors g n)))"

subsection \<open>Example stores\<close>

definition node0 :: "unit node_data" where
  "node0 = \<lparr>attributes = (), edges_to = [], edges_from = []\<rparr>"

definition edge_AB :: "bool \<Rightarrow> edge_data" where
  "edge_AB dir = \<lparr>source_uid = ''A'', target_uid = ''B'', description = ''knows'', directed = dir\<rparr>"

definition edge_BA :: "bool \<Rightarrow> edge_data" where
  "edge_BA dir = \<lparr>source_uid = ''B'', target_uid = ''A'', description = ''knows'', directed = dir\<rparr>"

definition edge_AA :: "bool \<Rightarrow> edge_data" where
  "edge_AA dir = \<lparr>source_uid = ''A'', target_uid = ''A'', description = ''self'', directed = dir\<rparr>"

definition edge_doc_of :: "edge_data \<Rightarrow> edge_doc" where
  "edge_doc_of e = \<lparr>source_uid = source_uid e, target_uid = target_uid e,
     description = description e, directed = directed e,
     edge_uid = generate_edge_uid (source_uid e) (target_uid e)\<rparr>"


definition store_A :: "unit store" where
  "store_A = \<lparr>nodes = [''A'' \<mapsto> node0], edges = Map.empty\<rparr>"

definition store_AB :: "unit store" where
  "store_AB = \<lparr>nodes = [''A'' \<mapsto> node0, ''B'' \<mapsto> node0], edges = Map.empty\<rparr>"

text \<open>\<open>A\<close> and \<open>B\<close> joined by the directed edge from \<open>A\<close> to \<open>B\<close>.\<close>

definition store_AB_directed :: "unit store" where
  "store_AB_directed =
     \<lparr>nodes = [''A'' \<mapsto> node0\<lparr>edges_to := [''B'']\<rparr>, ''B'' \<mapsto> node0\<lparr>edges_from := [''A'']\<rparr>],
      edges = [''A_to_B'' \<mapsto> edge_doc_of (edge_AB True)]\<rparr>"

text \<open>\<open>A\<close> and \<open>B\<close> joined by an undirected edge.\<close>

definition store_AB_undirected :: "unit store" where
  "store_AB_undirected =
     \<lparr>nodes = [''A'' \<mapsto> node0\<lparr>edges_to := [''B''], edges_from := [''B'']\<rparr>,
               ''B'' \<mapsto> node0\<lparr>edges_to := [''A''], edges_from := [''A'']\<rparr>],
      edges = [''A_to_B'' \<mapsto> edge_doc_of (edge_AB False),
               ''B_to_A'' \<mapsto> edge_doc_of (edge_BA False)]\<rparr>"



text \<open>
  \<open>X\<close> lists \<open>U\<close> in its \<^verbatim>\<open>edges_to\<close>, and \<open>U\<close> does not list \<open>X\<close>: a store that
  \<^verbatim>\<open>update_node\<close> can produce, since it writes whatever adjacency lists it is given.
\<close>

definition store_XU :: "unit store" where
  "store_XU = \<lparr>nodes = [''X'' \<mapsto> node0\<lparr>edges_to := [''U'']\<rparr>, ''U'' \<mapsto> node0], edges = Map.empty\<rparr>"


section \<open>Properties\<close>

subsection \<open>Edge identifiers\<close>

lemma delimiter_prefixes:
  "us @ vs = ''_to_'' \<Longrightarrow>
     us = [] \<or> us = ''_'' \<or> us = ''_t'' \<or> us = ''_to'' \<or> us = ''_to_''"
  by (auto simp: append_eq_Cons_conv)

text \<open>
  The heart of the matter: if \<open>s = s' @ us\<close> and the two identifiers agree, the
  delimiter of the second identifier starts inside \<open>us @ ''_to_''\<close>. Either \<open>us\<close>
  holds a whole delimiter, or \<open>us\<close> is a proper prefix of \<open>''_to_''\<close> that the delimiter
  overlaps: that happens for \<open>us = ''_to''\<close> only.
\<close>

lemma delimiter_overlap:
  assumes eq: "us @ ''_to_'' @ t = ''_to_'' @ t'"
    and nd: "\<not> has_delimiter (s' @ us)"
    and ns: "\<not> suffix ''_to'' (s' @ us)"
  shows "us = []"
proof -
  from eq obtain ws where
    "(us = ''_to_'' @ ws \<and> ws @ ''_to_'' @ t = t') \<or>
     (us @ ws = ''_to_'' \<and> ''_to_'' @ t = ws @ t')"
    unfolding append_eq_append_conv2[of us "''_to_'' @ t" "''_to_''" t'] by blast
  then show ?thesis
  proof
    assume "us = ''_to_'' @ ws \<and> ws @ ''_to_'' @ t = t'"
    then have "has_delimiter (s' @ us)"
      by (auto simp: has_delimiter_def sublist_def)
    with nd show ?thesis by simp
  next
    assume a: "us @ ws = ''_to_'' \<and> ''_to_'' @ t = ws @ t'"
    then consider "us = []" | "us = ''_''" | "us = ''_t''" | "us = ''_to''" | "us = ''_to_''"
      using delimiter_prefixes by blast
    then show ?thesis
    proof cases
      case 1 then show ?thesis .
    next
      case 2 with a show ?thesis by auto
    next
      case 3 with a show ?thesis by auto
    next
      case 4 with ns show ?thesis by (auto simp: suffix_def)
    next
      case 5 with nd show ?thesis by (auto simp: has_delimiter_def sublist_def)
    qed
  qed
qed

lemma generate_edge_uid_inj_aux:
  assumes eq: "generate_edge_uid s t = generate_edge_uid s' t'"
    and s: "s = s' @ us"
    and nd: "\<not> has_delimiter s" and ns: "\<not> suffix ''_to'' s"
  shows "s = s' \<and> t = t'"
proof -
  from eq s have "us @ ''_to_'' @ t = ''_to_'' @ t'"
    by (simp add: generate_edge_uid_def)
  moreover from nd s have "\<not> has_delimiter (s' @ us)" by simp
  moreover from ns s have "\<not> suffix ''_to'' (s' @ us)" by simp
  ultimately have "us = []" by (rule delimiter_overlap)
  with eq s show ?thesis by (simp add: generate_edge_uid_def)
qed

text \<open>
  C8 (as amended). \<open>generate_edge_uid s t\<close> is \<open>s @ ''_to_'' @ t\<close>. It is injective on
  pairs whose source uids neither contain the delimiter \<open>''_to_''\<close> nor end in
  \<open>''_to''\<close>: from \<open>generate_edge_uid s t = generate_edge_uid s' t'\<close> follow \<open>s = s'\<close>
  and \<open>t = t'\<close>. (Nothing is needed of the target uids.)
\<close>

theorem generate_edge_uid_injective:
  assumes "\<not> has_delimiter s" and "\<not> has_delimiter s'"
    and "\<not> suffix ''_to'' s" and "\<not> suffix ''_to'' s'"
    and eq: "generate_edge_uid s t = generate_edge_uid s' t'"
  shows "generate_edge_uid s t = s @ ''_to_'' @ t \<and> s = s' \<and> t = t'"
proof -
  from eq have "s @ ''_to_'' @ t = s' @ ''_to_'' @ t'"
    by (simp add: generate_edge_uid_def)
  then obtain us where "s = s' @ us \<or> s' = s @ us"
    unfolding append_eq_append_conv2[of s "''_to_'' @ t" s' "''_to_'' @ t'"] by blast
  then have "s = s' \<and> t = t'"
  proof
    assume "s = s' @ us"
    then show ?thesis
      using eq assms(1,3) by (intro generate_edge_uid_inj_aux[of s t s' t' us])
  next
    assume "s' = s @ us"
    then have "s' = s \<and> t' = t"
      using eq[symmetric] assms(2,4) by (intro generate_edge_uid_inj_aux[of s' t' s t us])
    then show ?thesis by simp
  qed
  then show ?thesis by (simp add: generate_edge_uid_def)
qed

theorem generate_edge_uid_injective_witness:
  "\<not> has_delimiter ''A'' \<and> \<not> suffix ''_to'' ''A'' \<and>
   generate_edge_uid ''A'' ''B'' = ''A_to_B''"
proof -
  have h: "\<not> has_delimiter ''A''" "\<not> suffix ''_to'' ''A''"
    by (simp_all add: has_delimiter_def sublist_code prefix_code suffix_to_prefix)
  from generate_edge_uid_injective[OF h(1) h(1) h(2) h(2) refl, of "''B''"] h
  show ?thesis by simp
qed

text \<open>
  C8 as stated fails: none of the uids \<open>a\<close>, \<open>to_b\<close>, \<open>a_to\<close>, \<open>b\<close> contains the
  delimiter, and the pairs \<open>(a, to_b)\<close> and \<open>(a_to, b)\<close> get the same identifier
  \<open>a_to_to_b\<close>.
\<close>

theorem generate_edge_uid_collision:
  "\<not> has_delimiter ''a'' \<and> \<not> has_delimiter ''to_b'' \<and>
   \<not> has_delimiter ''a_to'' \<and> \<not> has_delimiter ''b'' \<and>
   generate_edge_uid ''a'' ''to_b'' = generate_edge_uid ''a_to'' ''b'' \<and>
   ''a'' \<noteq> ''a_to'' \<and> ''to_b'' \<noteq> ''b''"
  by (simp add: has_delimiter_def generate_edge_uid_def sublist_code prefix_code)

subsection \<open>Listings of a set\<close>

lemma set_listing_remdups: "set_listing remdups"
  by (simp add: set_listing_def)

lemma set_listing_set [simp]: "set_listing L \<Longrightarrow> set (L xs) = set xs"
  by (simp add: set_listing_def)

lemma set_listing_distinct [simp]: "set_listing L \<Longrightarrow> distinct (L xs)"
  by (simp add: set_listing_def)

lemma set_remove1_listing:
  "set_listing L \<Longrightarrow> u \<notin> set xs \<Longrightarrow> set (remove1 u (L (xs @ [u]))) = set xs"
  by (simp add: set_remove1_eq)

lemma same_adjacency_refl [simp]: "rel_option same_adjacency x x"
  by (cases x) (simp_all add: same_adjacency_def)

subsection \<open>What \<open>add_edge\<close> writes\<close>


lemma add_edge_directed_result:
  assumes "nodes db (source_uid e) = Some sn" and "nodes db (target_uid e) = Some tn"
    and "directed e"
  shows "add_edge L db e = (None,
     db\<lparr>nodes := (nodes db)
            (source_uid e \<mapsto> sn\<lparr>edges_to := L (edges_to sn @ [target_uid e])\<rparr>,
             target_uid e \<mapsto> tn\<lparr>edges_from := L (edges_from tn @ [source_uid e])\<rparr>),
        edges := (edges db)(generate_edge_uid (source_uid e) (target_uid e) \<mapsto>
          \<lparr>source_uid = source_uid e, target_uid = target_uid e, description = description e,
           directed = True, edge_uid = generate_edge_uid (source_uid e) (target_uid e)\<rparr>)\<rparr>)"
  using assms
  by (simp add: add_edge_def get_node_def update_node_def update_egde_coll_def
      set_union_list_def Let_def)

lemma add_edge_undirected_result:
  assumes "nodes db (source_uid e) = Some sn" and "nodes db (target_uid e) = Some tn"
    and "\<not> directed e"
  shows "add_edge L db e = (None,
     db\<lparr>nodes := (nodes db)
            (target_uid e \<mapsto> tn\<lparr>edges_from := L (edges_from tn @ [source_uid e]),
                                 edges_to := L (edges_to tn @ [source_uid e])\<rparr>,
             source_uid e \<mapsto> sn\<lparr>edges_to := L (edges_to sn @ [target_uid e]),
                                 edges_from := L (edges_from sn @ [target_uid e])\<rparr>),
        edges := (edges db)
          (generate_edge_uid (source_uid e) (target_uid e) \<mapsto>
             \<lparr>source_uid = source_uid e, target_uid = target_uid e, description = description e,
              directed = False, edge_uid = generate_edge_uid (source_uid e) (target_uid e)\<rparr>,
           generate_edge_uid (target_uid e) (source_uid e) \<mapsto>
             \<lparr>source_uid = target_uid e, target_uid = source_uid e, description = description e,
              directed = False, edge_uid = generate_edge_uid (target_uid e) (source_uid e)\<rparr>)\<rparr>)"
  using assms
  by (simp add: add_edge_def get_node_def update_node_def update_egde_coll_def
      set_union_list_def Let_def)

subsection \<open>Directed edges\<close>

text \<open>
  Between two different nodes a directed \<open>add_edge\<close> does what C1 says: the target is
  in the source's \<^verbatim>\<open>edges_to\<close>, the source in the target's \<^verbatim>\<open>edges_from\<close>, and
  \<open>get_edge\<close> returns a directed record.
\<close>

lemma add_edge_directed_distinct:
  assumes L: "set_listing L"
    and sn: "nodes db (source_uid e) = Some sn" and tn: "nodes db (target_uid e) = Some tn"
    and dir: "directed e" and ne: "source_uid e \<noteq> target_uid e"
  shows "\<exists>db' sn' tn' doc. add_edge L db e = (None, db') \<and>
           get_node db' (source_uid e) = Inr sn' \<and> target_uid e \<in> set (edges_to sn') \<and>
           get_node db' (target_uid e) = Inr tn' \<and> source_uid e \<in> set (edges_from tn') \<and>
           get_edge db' (source_uid e) (target_uid e) = Inr doc \<and> directed doc"
  using L ne
  by (simp add: add_edge_directed_result[OF sn tn dir] get_node_def get_edge_def)

text \<open>
  When source and target are the same node and the node does not list itself yet, the
  directed \<open>add_edge\<close> returns without an exception and the node is still missing from
  its own \<^verbatim>\<open>edges_to\<close>: the write of \<open>target_node\<close> puts back the list read before
  \<open>source_node\<close> was written.
\<close>

lemma add_edge_directed_loop:
  assumes L: "set_listing L"
    and an: "nodes db (source_uid e) = Some an" and loop: "target_uid e = source_uid e"
    and dir: "directed e" and fresh: "source_uid e \<notin> set (edges_to an)"
  shows "\<exists>db' an'. add_edge L db e = (None, db') \<and>
           get_node db' (source_uid e) = Inr an' \<and>
           source_uid e \<notin> set (edges_to an') \<and> source_uid e \<in> set (edges_from an')"
proof -
  from an loop have tn: "nodes db (target_uid e) = Some an" by simp
  show ?thesis
    using L loop fresh
    by (simp add: add_edge_directed_result[OF an tn dir] get_node_def)
qed

text \<open>
  \<open>update_edge\<close> reads the target node after it has written the source node, and
  leaves a node that is its own neighbour in both of its lists.
\<close>

lemma update_edge_loop:
  assumes L: "set_listing L"
    and an: "nodes db (source_uid e) = Some an" and loop: "target_uid e = source_uid e"
    and ex: "edges db (generate_edge_uid (source_uid e) (source_uid e)) = Some doc"
  shows "\<exists>db' an'. update_edge L db e = (None, db') \<and>
           get_node db' (source_uid e) = Inr an' \<and>
           source_uid e \<in> set (edges_to an') \<and> source_uid e \<in> set (edges_from an')"
  using L an loop ex
  by (auto simp: update_edge_def get_node_def update_node_def update_egde_coll_def
      set_union_list_def Let_def)

text \<open>
  C1, at the input where the code departs from it. In a store that holds the single node
  \<open>A\<close> with empty adjacency lists, \<open>add_edge\<close> of the directed edge from \<open>A\<close> to \<open>A\<close>
  returns without an exception and leaves \<open>A\<close> with \<^verbatim>\<open>edges_from = [A]\<close> and
  \<^verbatim>\<open>edges_to = []\<close>: the target \<open>A\<close> is not a member of the \<^verbatim>\<open>edges_to\<close> of the source.
\<close>

theorem add_edge_directed_self_loop:
  "add_edge remdups store_A (edge_AA True) =
     (None, \<lparr>nodes = [''A'' \<mapsto> \<lparr>attributes = (), edges_to = [], edges_from = [''A'']\<rparr>],
             edges = [''A_to_A'' \<mapsto> edge_doc_of (edge_AA True)]\<rparr>)"
  by (simp add: add_edge_def get_node_def update_node_def update_egde_coll_def
      set_union_list_def Let_def store_A_def edge_AA_def node0_def edge_doc_of_def
      generate_edge_uid_def)

subsection \<open>Undirected edges\<close>




subsection \<open>Adding an edge twice\<close>



subsection \<open>Removing an edge that was just added\<close>

text \<open>
  C3 (as amended). Let source and target exist, let neither adjacency entry of the edge
  be present yet (the target not in the source's \<^verbatim>\<open>edges_to\<close>, the source not in the
  target's \<^verbatim>\<open>edges_from\<close>, and for an undirected edge also the source not in the target's
  \<^verbatim>\<open>edges_to\<close> and the target not in the source's \<^verbatim>\<open>edges_from\<close>), and let a directed edge
  join two different nodes. Then \<open>add_edge\<close> followed by \<open>remove_edge\<close> both return
  without an exception, every node document has the attributes and adjacency sets it
  had before, and the edge collection is the one before with the forward
  identifier (and, for an undirected edge, the reverse identifier) removed.
\<close>

theorem remove_edge_after_add_edge:
  assumes L: "set_listing L"
    and sn: "nodes db (source_uid e) = Some sn" and tn: "nodes db (target_uid e) = Some tn"
    and fresh: "target_uid e \<notin> set (edges_to sn)" "source_uid e \<notin> set (edges_from tn)"
    and fresh_rev: "\<not> directed e \<longrightarrow>
           source_uid e \<notin> set (edges_to tn) \<and> target_uid e \<notin> set (edges_from sn)"
    and no_loop: "directed e \<longrightarrow> source_uid e \<noteq> target_uid e"
  shows "\<exists>db1 db2. add_edge L db e = (None, db1) \<and>
           remove_edge db1 (source_uid e) (target_uid e) = (None, db2) \<and>
           (\<forall>uid. rel_option same_adjacency (nodes db2 uid) (nodes db uid)) \<and>
           edges db2 = (if directed e
              then (edges db)(generate_edge_uid (source_uid e) (target_uid e) := None)
              else (edges db)(generate_edge_uid (source_uid e) (target_uid e) := None,
                              generate_edge_uid (target_uid e) (source_uid e) := None))"
proof (cases "directed e")
  case True
  with no_loop have ne: "source_uid e \<noteq> target_uid e" by simp
  show ?thesis
    using True ne L sn tn fresh
    apply (simp add: add_edge_directed_result[OF sn tn True])
    apply (simp add: remove_edge_def get_edge_def get_node_def update_node_def list_remove_def
        delete_from_edge_coll_def Let_def same_adjacency_def set_remove1_listing)
    done
next
  case False
  with fresh_rev have fr: "source_uid e \<notin> set (edges_to tn)" "target_uid e \<notin> set (edges_from sn)"
    by simp_all
  show ?thesis
  proof (cases "source_uid e = target_uid e")
    case True
    then show ?thesis
      using False L sn tn fresh fr
      apply (simp add: add_edge_undirected_result[OF sn tn False])
      apply (simp add: remove_edge_def get_edge_def get_node_def update_node_def list_remove_def
          delete_from_edge_coll_def Let_def same_adjacency_def set_remove1_listing)
      done
  next
    case ne: False
    then show ?thesis
      using False L sn tn fresh fr
      apply (simp add: add_edge_undirected_result[OF sn tn False])
      apply (simp add: remove_edge_def get_edge_def get_node_def update_node_def list_remove_def
          delete_from_edge_coll_def Let_def same_adjacency_def set_remove1_listing)
      done
  qed
qed

theorem remove_edge_after_add_edge_witness:
  "set_listing remdups \<and> nodes store_AB ''A'' = Some node0 \<and> nodes store_AB ''B'' = Some node0 \<and>
   ''B'' \<notin> set (edges_to node0) \<and> ''A'' \<notin> set (edges_from node0) \<and>
   ''A'' \<notin> set (edges_to node0) \<and> ''B'' \<notin> set (edges_from node0) \<and>
   (\<exists>db1 db2. add_edge remdups store_AB (edge_AB False) = (None, db1) \<and>
      remove_edge db1 ''A'' ''B'' = (None, db2) \<and>
      (\<forall>uid. rel_option same_adjacency (nodes db2 uid) (nodes store_AB uid)) \<and>
      edges db2 = (edges store_AB)(generate_edge_uid ''A'' ''B'' := None,
                                   generate_edge_uid ''B'' ''A'' := None))"
proof -
  have a: "nodes store_AB (source_uid (edge_AB False)) = Some node0"
    and b: "nodes store_AB (target_uid (edge_AB False)) = Some node0"
    by (simp_all add: store_AB_def edge_AB_def)
  have f: "target_uid (edge_AB False) \<notin> set (edges_to node0)"
    "source_uid (edge_AB False) \<notin> set (edges_from node0)"
    "\<not> directed (edge_AB False) \<longrightarrow>
       source_uid (edge_AB False) \<notin> set (edges_to node0) \<and>
       target_uid (edge_AB False) \<notin> set (edges_from node0)"
    "directed (edge_AB False) \<longrightarrow> source_uid (edge_AB False) \<noteq> target_uid (edge_AB False)"
    by (simp_all add: node0_def edge_AB_def)
  from remove_edge_after_add_edge[OF set_listing_remdups a b f] a b
  show ?thesis
    by (simp add: set_listing_remdups edge_AB_def node0_def)
qed

text \<open>
  C3 as stated fails where the edge is already there. In the store that holds the
  directed edge from \<open>A\<close> to \<open>B\<close>, adding that edge again and removing it leaves \<open>A\<close>
  with an empty \<^verbatim>\<open>edges_to\<close>, \<open>B\<close> with an empty \<^verbatim>\<open>edges_from\<close> and no edge record:
  not the state before the \<open>add_edge\<close>, in which \<open>A\<close> listed \<open>B\<close>.
\<close>

theorem remove_edge_after_add_edge_connected:
  "nodes store_AB_directed ''A'' = Some (node0\<lparr>edges_to := [''B'']\<rparr>) \<and>
   add_edge remdups store_AB_directed (edge_AB True) = (None, store_AB_directed) \<and>
   remove_edge store_AB_directed ''A'' ''B'' = (None, store_AB) \<and>
   nodes store_AB ''A'' = Some node0 \<and> edges_to node0 = []"
  by (simp add: add_edge_def remove_edge_def get_edge_def get_node_def update_node_def
      update_egde_coll_def delete_from_edge_coll_def list_remove_def set_union_list_def Let_def
      store_AB_directed_def store_AB_def edge_AB_def node0_def edge_doc_of_def
      generate_edge_uid_def fun_eq_iff)

subsection \<open>Removing a node\<close>

lemma strip_to_idem [simp]: "strip_to uid (strip_to uid n) = strip_to uid n"
  by (simp add: strip_to_def)

lemma strip_from_idem [simp]: "strip_from uid (strip_from uid n) = strip_from uid n"
  by (simp add: strip_from_def)










subsection \<open>Pruning nodes of degree zero\<close>

lemma stream_eq:
  "set ids \<subseteq> dom coll \<Longrightarrow> stream coll ids = map (\<lambda>k. (k, the (coll k))) ids"
  by (induction ids) (auto simp: stream_def List.map_filter_simps)

lemma remove_node_zero_degree:
  assumes "nodes db uid = Some un" and "zero_degree un"
  shows "remove_node db uid = (None, db\<lparr>nodes := (nodes db)(uid := None)\<rparr>)"
  using assms by (simp add: remove_node_def get_node_def zero_degree_def)

lemma remove_nodes_zero_degree:
  assumes "distinct us" and "\<forall>u\<in>set us. \<exists>n. nodes db u = Some n \<and> zero_degree n"
  shows "remove_nodes db us =
     (None, db\<lparr>nodes := (\<lambda>v. if v \<in> set us then None else nodes db v)\<rparr>)"
  using assms
proof (induction us arbitrary: db)
  case Nil
  then show ?case by simp
next
  case (Cons u us)
  from Cons.prems obtain n where n: "nodes db u = Some n" "zero_degree n" by auto
  let ?db = "db\<lparr>nodes := (nodes db)(u := None)\<rparr>"
  have "remove_nodes ?db us =
      (None, ?db\<lparr>nodes := (\<lambda>v. if v \<in> set us then None else nodes ?db v)\<rparr>)"
    using Cons.prems by (intro Cons.IH) auto
  then show ?case
    by (auto simp: remove_node_zero_degree[OF n] fun_eq_iff)
qed

text \<open>
  C7. Given a stream that yields every node document once, \<open>clean_zerodegree_nodes\<close>
  returns without an exception; the nodes collection it leaves holds exactly the
  documents whose \<^verbatim>\<open>edges_to\<close> or \<^verbatim>\<open>edges_from\<close> was non-empty at the scan, each one as it
  was, and the edge collection is unchanged.
\<close>

theorem clean_zerodegree_nodes_exact:
  assumes "stream_order (nodes db) ids"
  shows "clean_zerodegree_nodes ids db =
     (None, db\<lparr>nodes := (\<lambda>v. case nodes db v of
                                None \<Rightarrow> None
                              | Some n \<Rightarrow> if edges_to n = [] \<and> edges_from n = []
                                          then None else Some n)\<rparr>)"
proof -
  from assms have d: "distinct ids" and s: "set ids = dom (nodes db)"
    by (simp_all add: stream_order_def)
  let ?us = "filter (\<lambda>k. zero_degree (the (nodes db k))) ids"
  have us: "clean_zerodegree_nodes ids db = remove_nodes db ?us"
    using s by (simp add: clean_zerodegree_nodes_def stream_eq filter_map comp_def zero_degree_def)
  have "remove_nodes db ?us =
      (None, db\<lparr>nodes := (\<lambda>v. if v \<in> set ?us then None else nodes db v)\<rparr>)"
    using d s by (intro remove_nodes_zero_degree) auto
  moreover have "(\<lambda>v. if v \<in> set ?us then None else nodes db v) =
     (\<lambda>v. case nodes db v of None \<Rightarrow> None
          | Some n \<Rightarrow> if edges_to n = [] \<and> edges_from n = [] then None else Some n)"
    using s by (auto simp: fun_eq_iff zero_degree_def split: option.splits)
  ultimately show ?thesis
    by (simp only: us)
qed


theorem clean_zerodegree_nodes_exact_witness:
  "stream_order (nodes store_XU) [''X'', ''U''] \<and>
   clean_zerodegree_nodes [''X'', ''U''] store_XU =
     (None, \<lparr>nodes = [''X'' \<mapsto> node0\<lparr>edges_to := [''U'']\<rparr>], edges = Map.empty\<rparr>)"
proof -
  have s: "stream_order (nodes store_XU) [''X'', ''U'']"
    by (auto simp: stream_order_def store_XU_def)
  from clean_zerodegree_nodes_exact[OF s] s
  show ?thesis
    by (simp add: store_XU_def node0_def fun_eq_iff)
qed

subsection \<open>Uids that contain the delimiter\<close>






subsection \<open>The materialized graph\<close>

lemma count_list_distinct:
  "distinct xs \<Longrightarrow> count_list xs v = (if v \<in> set xs then 1 else 0)"
  by (induction xs) auto

lemma map_of_rev_distinct:
  "distinct (map fst xs) \<Longrightarrow> map_of (rev xs) = map_of xs"
proof (induction xs)
  case Nil
  show ?case by simp
next
  case (Cons x xs)
  then have "map_of xs (fst x) = None"
    by (simp add: map_of_eq_None_iff)
  with Cons show ?case
    by (cases x) (auto simp: fun_eq_iff map_add_def split: option.splits)
qed

lemma stream_set:
  "set (stream coll ids) = {(k, v). k \<in> set ids \<and> coll k = Some v}"
  by (induction ids) (auto simp: stream_def List.map_filter_simps split: option.splits)

lemma neighbors_new_node [simp]:
  "graph_inv g \<Longrightarrow> neighbors (nx_new_node g n) u = neighbors g u"
  by (simp add: nx_new_node_def neighbors_def graph_inv_def)

lemma graph_inv_new_node [simp]:
  "graph_inv g \<Longrightarrow> graph_inv (nx_new_node g n)"
  by (simp add: nx_new_node_def neighbors_def graph_inv_def)

lemma g_node_new_node:
  "g_node (nx_new_node g n) k = (if k = n \<and> g_node g n = None then Some None else g_node g k)"
  by (simp add: nx_new_node_def)

lemma graph_inv_Graph [simp]: "graph_inv nx_Graph"
  by (simp add: nx_Graph_def graph_inv_def neighbors_def)

lemma neighbors_Graph [simp]: "neighbors nx_Graph u = []"
  by (simp add: nx_Graph_def neighbors_def)

lemma g_node_Graph [simp]: "g_node nx_Graph k = None"
  by (simp add: nx_Graph_def)

lemma neighbors_add_node [simp]:
  "graph_inv g \<Longrightarrow> neighbors (nx_add_node g n attr) u = neighbors g u"
  using neighbors_new_node[of g n u]
  by (simp add: nx_add_node_def Let_def neighbors_def)

lemma graph_inv_add_node [simp]:
  "graph_inv g \<Longrightarrow> graph_inv (nx_add_node g n attr)"
  using graph_inv_new_node[of g n]
  by (simp add: nx_add_node_def Let_def graph_inv_def neighbors_def)

lemma g_node_add_node:
  "g_node (nx_add_node g n attr) k = (if k = n then Some (Some attr) else g_node g k)"
  by (simp add: nx_add_node_def Let_def g_node_new_node)

lemma set_dict_add_key [simp]: "set (dict_add_key ks k) = insert k (set ks)"
  by (auto simp: dict_add_key_def)

lemma distinct_dict_add_key [simp]: "distinct ks \<Longrightarrow> distinct (dict_add_key ks k)"
  by (simp add: dict_add_key_def)

lemma neighbors_set_adj [simp]:
  "neighbors (nx_set_adj g a b) u =
     (if u = a then dict_add_key (neighbors g a) b else neighbors g u)"
  by (simp add: nx_set_adj_def neighbors_def)

lemma g_node_set_adj [simp]: "g_node (nx_set_adj g a b) = g_node g"
  by (simp add: nx_set_adj_def)

lemma graph_inv_set_adj [simp]:
  "graph_inv g \<Longrightarrow> g_node g a \<noteq> None \<Longrightarrow> graph_inv (nx_set_adj g a b)"
  unfolding graph_inv_def
  by (simp add: nx_set_adj_def) (simp add: nx_set_adj_def[symmetric])

lemma neighbors_add_edge:
  assumes "graph_inv g"
  shows "set (neighbors (nx_add_edge g a b) u) =
     set (neighbors g u) \<union> (if u = a then {b} else {}) \<union> (if u = b then {a} else {})"
  using assms by (auto simp: nx_add_edge_def Let_def)

lemma graph_inv_add_edge [simp]:
  assumes "graph_inv g"
  shows "graph_inv (nx_add_edge g a b)"
  using assms by (simp add: nx_add_edge_def Let_def g_node_new_node)

lemma g_node_add_edge:
  "g_node g k \<noteq> None \<Longrightarrow> g_node (nx_add_edge g a b) k = g_node g k"
  by (auto simp: nx_add_edge_def Let_def g_node_new_node)

lemma add_nodes_fold:
  assumes "graph_inv g"
  shows "graph_inv (foldl (\<lambda>g (doc_id, node). nx_add_node g doc_id node) g xs) \<and>
    (\<forall>u. neighbors (foldl (\<lambda>g (doc_id, node). nx_add_node g doc_id node) g xs) u = neighbors g u) \<and>
    (\<forall>k. g_node (foldl (\<lambda>g (doc_id, node). nx_add_node g doc_id node) g xs) k =
        (case map_of (rev xs) k of Some n \<Rightarrow> Some (Some n) | None \<Rightarrow> g_node g k))"
  using assms
proof (induction xs arbitrary: g)
  case Nil
  then show ?case by simp
next
  case (Cons x xs)
  obtain k n where x: "x = (k, n)" by (cases x)
  from Cons.prems have "graph_inv (nx_add_node g k n)" by simp
  from Cons.IH[OF this] Cons.prems show ?case
    by (auto simp: x g_node_add_node map_add_def split: option.splits)
qed

lemma add_edges_fold:
  assumes "graph_inv g"
  shows "graph_inv (foldl (\<lambda>g (doc_id, doc). nx_add_edge g (source_uid doc) (target_uid doc)) g es) \<and>
    (\<forall>u. set (neighbors
              (foldl (\<lambda>g (doc_id, doc). nx_add_edge g (source_uid doc) (target_uid doc)) g es) u) =
        set (neighbors g u) \<union> {v. \<exists>(k, doc) \<in> set es. joins doc u v}) \<and>
    (\<forall>k. g_node g k \<noteq> None \<longrightarrow>
        g_node (foldl (\<lambda>g (doc_id, doc). nx_add_edge g (source_uid doc) (target_uid doc)) g es) k =
        g_node g k)"
  using assms
proof (induction es arbitrary: g)
  case Nil
  then show ?case by simp
next
  case (Cons x es)
  obtain k doc where x: "x = (k, doc)" by (cases x)
  let ?g = "nx_add_edge g (source_uid doc) (target_uid doc)"
  from Cons.prems have i: "graph_inv ?g" by simp
  note IH = Cons.IH[OF i]
  have nb: "\<And>u. set (neighbors ?g u) = set (neighbors g u) \<union> {v. joins doc u v}"
    using neighbors_add_edge[OF Cons.prems] by (auto simp: joins_def)
  show ?case
    using IH by (auto simp: x nb g_node_add_edge)
qed

text \<open>
  C10 (as amended). \<open>build_networkx\<close> adds every node document and calls
  \<^verbatim>\<open>graph.add_edge\<close> once for every edge document, the forward and the reverse record of
  an undirected edge included. The graph is a \<^verbatim>\<open>networkx.Graph\<close>, which keeps one
  neighbour entry per pair: in the materialized graph \<open>v\<close> stands among the neighbours
  of \<open>u\<close> exactly once if some edge document joins \<open>u\<close> and \<open>v\<close> in either direction, and
  not at all otherwise. No multiplicity exceeds one.
\<close>

theorem build_networkx_simple_graph:
  assumes "stream_order (nodes db) node_ids" and "stream_order (edges db) edge_ids"
  shows "(\<forall>k n. nodes db k = Some n \<longrightarrow>
            g_node (build_networkx db node_ids edge_ids) k = Some (Some n)) \<and>
         (\<forall>u v. edge_multiplicity (build_networkx db node_ids edge_ids) u v =
            (if \<exists>k doc. edges db k = Some doc \<and> joins doc u v then 1 else 0))"
proof -
  let ?g1 = "foldl (\<lambda>g (doc_id, node). nx_add_node g doc_id node) nx_Graph (stream (nodes db) node_ids)"
  let ?G = "build_networkx db node_ids edge_ids"
  have G: "?G = foldl (\<lambda>g (doc_id, doc). nx_add_edge g (source_uid doc) (target_uid doc)) ?g1
                  (stream (edges db) edge_ids)"
    by (simp add: build_networkx_def)
  from assms have dn: "distinct node_ids" and sn: "set node_ids = dom (nodes db)"
    and se: "set edge_ids = dom (edges db)"
    by (simp_all add: stream_order_def)
  have st: "stream (nodes db) node_ids = map (\<lambda>k. (k, the (nodes db k))) node_ids"
    using sn by (simp add: stream_eq)
  have 1: "graph_inv ?g1" "\<And>u. neighbors ?g1 u = []"
    "\<And>k. g_node ?g1 k =
        (case map_of (rev (stream (nodes db) node_ids)) k of Some n \<Rightarrow> Some (Some n) | None \<Rightarrow> None)"
    using add_nodes_fold[OF graph_inv_Graph, of "stream (nodes db) node_ids"]
    by (simp_all split: option.splits)
  have mo: "map_of (rev (stream (nodes db) node_ids)) k = nodes db k" for k
  proof -
    have "distinct (map fst (stream (nodes db) node_ids))"
      using dn by (simp add: st comp_def)
    then have "map_of (rev (stream (nodes db) node_ids)) k = map_of (stream (nodes db) node_ids) k"
      by (simp add: map_of_rev_distinct)
    also have "map_of (stream (nodes db) node_ids) k = nodes db k"
      using sn by (cases "nodes db k") (auto simp: st map_of_map_restrict restrict_map_def)
    finally show ?thesis .
  qed
  have 2: "graph_inv ?G"
    "\<And>u. set (neighbors ?G u) = {v. \<exists>(k, doc) \<in> set (stream (edges db) edge_ids). joins doc u v}"
    "\<And>k. g_node ?g1 k \<noteq> None \<Longrightarrow> g_node ?G k = g_node ?g1 k"
    using add_edges_fold[OF 1(1), of "stream (edges db) edge_ids"] 1(2)
    unfolding G by simp_all
  have nodes: "g_node ?G k = Some (Some n)" if "nodes db k = Some n" for k n
    using that 2(3)[of k] by (simp add: 1(3) mo)
  have mult: "edge_multiplicity ?G u v =
      (if \<exists>k doc. edges db k = Some doc \<and> joins doc u v then 1 else 0)" for u v
  proof -
    have "distinct (neighbors ?G u)"
      using 2(1) by (simp add: graph_inv_def)
    then have "edge_multiplicity ?G u v = (if v \<in> set (neighbors ?G u) then 1 else 0)"
      unfolding edge_multiplicity_def by (rule count_list_distinct)
    also have "v \<in> set (neighbors ?G u) \<longleftrightarrow> (\<exists>k doc. edges db k = Some doc \<and> joins doc u v)"
      using se by (auto simp: 2(2) stream_set)
    finally show ?thesis .
  qed
  show ?thesis
    using nodes mult by blast
qed

theorem build_networkx_simple_graph_witness:
  "stream_order (nodes store_AB_undirected) [''A'', ''B''] \<and>
   stream_order (edges store_AB_undirected) [''A_to_B'', ''B_to_A''] \<and>
   g_node (build_networkx store_AB_undirected [''A'', ''B''] [''A_to_B'', ''B_to_A'']) ''A'' =
     Some (nodes store_AB_undirected ''A'') \<and>
   edge_multiplicity (build_networkx store_AB_undirected [''A'', ''B''] [''A_to_B'', ''B_to_A''])
     ''B'' ''A'' = 1"
proof -
  have n: "stream_order (nodes store_AB_undirected) [''A'', ''B'']"
    and e: "stream_order (edges store_AB_undirected) [''A_to_B'', ''B_to_A'']"
    by (auto simp: stream_order_def store_AB_undirected_def)
  have a: "nodes store_AB_undirected ''A'' =
      Some (node0\<lparr>edges_to := [''B''], edges_from := [''B'']\<rparr>)"
    by (simp add: store_AB_undirected_def)
  have j: "\<exists>k doc. edges store_AB_undirected k = Some doc \<and> joins doc ''B'' ''A''"
    by (rule exI[where x = "''A_to_B''"], rule exI[where x = "edge_doc_of (edge_AB False)"])
       (simp add: store_AB_undirected_def joins_def edge_doc_of_def edge_AB_def)
  from build_networkx_simple_graph[OF n e] a j n e
  show ?thesis
    by simp
qed

text \<open>
  C10 as stated fails on the store that holds the undirected edge between \<open>A\<close> and
  \<open>B\<close>, with its forward and its reverse record: streamed in either order, the
  materialized graph has \<open>B\<close> among the neighbours of \<open>A\<close> once, not more than once.
\<close>

theorem build_networkx_undirected_once:
  "edges store_AB_undirected ''A_to_B'' = Some (edge_doc_of (edge_AB False)) \<and>
   edges store_AB_undirected ''B_to_A'' = Some (edge_doc_of (edge_BA False)) \<and>
   g_adj (build_networkx store_AB_undirected [''A'', ''B''] [''A_to_B'', ''B_to_A'']) =
     [''A'' \<mapsto> [''B''], ''B'' \<mapsto> [''A'']] \<and>
   edge_multiplicity (build_networkx store_AB_undirected [''A'', ''B''] [''A_to_B'', ''B_to_A''])
     ''A'' ''B'' = 1 \<and>
   edge_multiplicity (build_networkx store_AB_undirected [''A'', ''B''] [''B_to_A'', ''A_to_B''])
     ''A'' ''B'' = 1"
proof -
  let ?nA = "node0\<lparr>edges_to := [''B''], edges_from := [''B'']\<rparr>"
  let ?nB = "node0\<lparr>edges_to := [''A''], edges_from := [''A'']\<rparr>"
  have docs: "edges store_AB_undirected ''A_to_B'' = Some (edge_doc_of (edge_AB False))"
    "edges store_AB_undirected ''B_to_A'' = Some (edge_doc_of (edge_BA False))"
    by (simp_all add: store_AB_undirected_def)
  have nodes_stream: "stream (nodes store_AB_undirected) [''A'', ''B''] = [(''A'', ?nA), (''B'', ?nB)]"
    by (simp add: stream_def List.map_filter_simps store_AB_undirected_def)
  have edges_stream:
    "stream (edges store_AB_undirected) [''A_to_B'', ''B_to_A''] =
       [(''A_to_B'', edge_doc_of (edge_AB False)), (''B_to_A'', edge_doc_of (edge_BA False))]"
    "stream (edges store_AB_undirected) [''B_to_A'', ''A_to_B''] =
       [(''B_to_A'', edge_doc_of (edge_BA False)), (''A_to_B'', edge_doc_of (edge_AB False))]"
    by (simp_all add: stream_def List.map_filter_simps store_AB_undirected_def)
  have node_A: "nx_add_node nx_Graph ''A'' ?nA =
      \<lparr>g_node = [''A'' \<mapsto> Some ?nA], g_adj = [''A'' \<mapsto> []]\<rparr>"
    by (simp add: nx_add_node_def nx_new_node_def nx_Graph_def)
  have node_B: "nx_add_node \<lparr>g_node = [''A'' \<mapsto> Some ?nA], g_adj = [''A'' \<mapsto> []]\<rparr> ''B'' ?nB =
      \<lparr>g_node = [''A'' \<mapsto> Some ?nA, ''B'' \<mapsto> Some ?nB], g_adj = [''A'' \<mapsto> [], ''B'' \<mapsto> []]\<rparr>"
    by (simp add: nx_add_node_def nx_new_node_def)
  have edge_AB: "nx_add_edge
        \<lparr>g_node = [''A'' \<mapsto> Some ?nA, ''B'' \<mapsto> Some ?nB], g_adj = [''A'' \<mapsto> xs, ''B'' \<mapsto> ys]\<rparr>
        ''A'' ''B'' =
      \<lparr>g_node = [''A'' \<mapsto> Some ?nA, ''B'' \<mapsto> Some ?nB],
        g_adj = [''A'' \<mapsto> dict_add_key xs ''B'', ''B'' \<mapsto> dict_add_key ys ''A'']\<rparr>" for xs ys
    by (simp add: nx_add_edge_def nx_set_adj_def nx_new_node_def neighbors_def fun_upd_twist)
  have edge_BA: "nx_add_edge
        \<lparr>g_node = [''A'' \<mapsto> Some ?nA, ''B'' \<mapsto> Some ?nB], g_adj = [''A'' \<mapsto> xs, ''B'' \<mapsto> ys]\<rparr>
        ''B'' ''A'' =
      \<lparr>g_node = [''A'' \<mapsto> Some ?nA, ''B'' \<mapsto> Some ?nB],
        g_adj = [''A'' \<mapsto> dict_add_key xs ''B'', ''B'' \<mapsto> dict_add_key ys ''A'']\<rparr>" for xs ys
    by (simp add: nx_add_edge_def nx_set_adj_def nx_new_node_def neighbors_def fun_upd_twist)
  have forward_first:
    "build_networkx store_AB_undirected [''A'', ''B''] [''A_to_B'', ''B_to_A''] =
      \<lparr>g_node = [''A'' \<mapsto> Some ?nA, ''B'' \<mapsto> Some ?nB],
        g_adj = [''A'' \<mapsto> [''B''], ''B'' \<mapsto> [''A'']]\<rparr>"
    by (simp add: build_networkx_def nodes_stream edges_stream node_A node_B edge_AB edge_BA
        edge_doc_of_def edge_AB_def edge_BA_def dict_add_key_def)
  have reverse_first:
    "build_networkx store_AB_undirected [''A'', ''B''] [''B_to_A'', ''A_to_B''] =
      \<lparr>g_node = [''A'' \<mapsto> Some ?nA, ''B'' \<mapsto> Some ?nB],
        g_adj = [''A'' \<mapsto> [''B''], ''B'' \<mapsto> [''A'']]\<rparr>"
    by (simp add: build_networkx_def nodes_stream edges_stream node_A node_B edge_AB edge_BA
        edge_doc_of_def edge_AB_def edge_BA_def dict_add_key_def)
  show ?thesis
    by (simp add: docs forward_first reverse_first edge_multiplicity_def neighbors_def)
qed


end
